theory Spec2Isabelle
  imports Main "HOL-Library.Sublist" "HOL-Library.Multiset"
begin

section \<open>Data model of the glossary server\<close>

text \<open>
  The server (\<^verbatim>\<open>src/server.js\<close>) keeps a static object \<^verbatim>\<open>programmingTermsDatabase\<close>
  whose own properties are the categories, each an array of term objects, and answers
  read-only routes from it; the handlers of \<^verbatim>\<open>/api/terms\<close>, \<^verbatim>\<open>/api/terms/:id\<close>,
  \<^verbatim>\<open>/api/random\<close> and \<^verbatim>\<open>/api/stats\<close> are modelled here. A JavaScript string is a sequence
  of code units; it is modelled by \<^typ>\<open>string\<close>. No handler looks at the value of a code
  unit except through \<^verbatim>\<open>toLowerCase\<close> and \<^verbatim>\<open>parseInt\<close>.
\<close>

text \<open>
  A term object. The field \<^verbatim>\<open>id\<close> is called \<open>id_t\<close> here. The type of \<open>relatedTerms\<close>
  is a parameter: in the catalog it is an optional array of strings (the handler reads it
  with \<^verbatim>\<open>?.\<close>), in the detail response it is an array of projected objects.
\<close>

record 'r Term =
  id_t :: string
  name :: string
  chinese :: string
  description :: string
  difficulty :: string
  tags :: "string list"
  example :: string
  useCases :: "string list"
  relatedTerms :: 'r

type_synonym entry = "string list option Term"

text \<open>
  The catalog: the own enumerable properties of \<^verbatim>\<open>programmingTermsDatabase\<close> in the
  order of \<^verbatim>\<open>Object.keys\<close> (an object has each key once). It is a parameter of every
  handler, so that what is proved holds for the catalog of the source and for any other.
\<close>

type_synonym catalog = "(string \<times> entry list) list"

text \<open>\<^verbatim>\<open>const allTerms = Object.values(programmingTermsDatabase).flat();\<close>\<close>

definition allTerms :: "catalog \<Rightarrow> entry list" where
  "allTerms db = concat (map snd db)"

text \<open>\<^verbatim>\<open>Object.keys(programmingTermsDatabase)\<close>\<close>

definition keys :: "catalog \<Rightarrow> string list" where
  "keys db = map fst db"

subsection \<open>Property lookup\<close>

text \<open>
  \<^verbatim>\<open>programmingTermsDatabase[category]\<close> is an ordinary property read on an object
  literal: an own property wins, otherwise the property is looked up on
  \<^verbatim>\<open>Object.prototype\<close>, otherwise the value is \<^verbatim>\<open>undefined\<close>. The members of
  \<^verbatim>\<open>Object.prototype\<close> are functions (and, for \<^verbatim>\<open>__proto__\<close>, the prototype object
  itself): truthy values that have neither a \<^verbatim>\<open>filter\<close> nor a \<^verbatim>\<open>slice\<close> method.
\<close>

datatype jsvalue = Array "entry list" | PrototypeMember | Undefined

definition objectPrototypeKeys :: "string list" where
  "objectPrototypeKeys =
     [''constructor'', ''__defineGetter__'', ''__defineSetter__'', ''hasOwnProperty'',
      ''__lookupGetter__'', ''__lookupSetter__'', ''isPrototypeOf'',
      ''propertyIsEnumerable'', ''toString'', ''valueOf'', ''__proto__'',
      ''toLocaleString'']"

definition getProperty :: "catalog \<Rightarrow> string \<Rightarrow> jsvalue" where
  "getProperty db key =
     (case map_of db key of
        Some ts \<Rightarrow> Array ts
      | None \<Rightarrow> if key \<in> set objectPrototypeKeys then PrototypeMember else Undefined)"

text \<open>\<^verbatim>\<open>v || []\<close>: every array (also the empty one) and every function is truthy.\<close>

definition orEmptyArray :: "jsvalue \<Rightarrow> jsvalue" where
  "orEmptyArray v = (case v of Undefined \<Rightarrow> Array [] | _ \<Rightarrow> v)"

subsection \<open>Numbers, \<^verbatim>\<open>parseInt\<close> and \<^verbatim>\<open>slice\<close>\<close>

text \<open>
  A JavaScript Number is an IEEE 754 double. The numbers of the handlers are \<^verbatim>\<open>NaN\<close>, the
  two infinities, or a double whose value is an integer: \<open>Num n\<close> stands for the double
  with the value \<open>n\<close> (the two zeros are not told apart; no handler can). Every integer of
  magnitude up to \<open>2^53\<close> is a double; a larger one is rounded to the nearest double, to
  the one with the even significand in a tie, and to an infinity from \<open>2^1024 - 2^970\<close> on.
\<close>

datatype jsnum = NaN | Num int | PosInfinity | NegInfinity

text \<open>
  The number of low bits that a non-negative integer has beyond a 53-bit significand:
  halve until the number fits. The first argument of the loop is its test, \<open>m < 2^53\<close>.
\<close>

function excessBitsLoop :: "bool \<Rightarrow> int \<Rightarrow> nat" where
  "excessBitsLoop True m = 0"
| "excessBitsLoop False m = Suc (excessBitsLoop (m div 2 < 2 ^ 53) (m div 2))"
  by pat_completeness auto
termination
  by (relation "measure (\<lambda>(fits, m). if fits then 0 else Suc (nat m))") auto

definition excessBits :: "int \<Rightarrow> nat" where
  "excessBits m = excessBitsLoop (m < 2 ^ 53) m"

text \<open>The double nearest to an integer, ties to even.\<close>

definition roundToDouble :: "int \<Rightarrow> jsnum" where
  "roundToDouble x =
     (let m = \<bar>x\<bar>;
          e = excessBits m;
          q = m div 2 ^ e;
          r = m mod 2 ^ e;
          significand = (if 2 ^ e < 2 * r \<or> (2 * r = 2 ^ e \<and> odd q) then q + 1 else q)
      in if 971 < e \<or> (e = 971 \<and> significand = 2 ^ 53)
         then (if x < 0 then NegInfinity else PosInfinity)
         else Num (if x < 0 then - (significand * 2 ^ e) else significand * 2 ^ e))"

definition isWhiteSpace :: "char \<Rightarrow> bool" where
  "isWhiteSpace c = (of_char c \<in> set [9, 10, 11, 12, 13, 32, 160 :: nat])"

definition digitValue :: "char \<Rightarrow> nat option" where
  "digitValue c =
     (let n = (of_char c :: nat) in
      if 48 \<le> n \<and> n \<le> 57 then Some (n - 48)
      else if 97 \<le> n \<and> n \<le> 122 then Some (n - 87)
      else if 65 \<le> n \<and> n \<le> 90 then Some (n - 55)
      else None)"

definition isDigit :: "nat \<Rightarrow> char \<Rightarrow> bool" where
  "isDigit radix c = (case digitValue c of Some v \<Rightarrow> v < radix | None \<Rightarrow> False)"

definition mathInt :: "nat \<Rightarrow> string \<Rightarrow> int" where
  "mathInt radix ds = foldl (\<lambda>acc c. acc * int radix + int (the (digitValue c))) 0 ds"

text \<open>
  \<^verbatim>\<open>parseInt(string)\<close> without a radix: leading white space is dropped, then an optional
  sign, then an optional \<^verbatim>\<open>0x\<close>/\<^verbatim>\<open>0X\<close> prefix (which selects radix 16), then the longest
  run of digits; no digit gives \<^verbatim>\<open>NaN\<close>, and whatever follows the digits is ignored. The
  result is the Number for the signed value of the digits, so that
  \<^verbatim>\<open>parseInt('9007199254740993')\<close> is \<open>9007199254740992\<close>. (The standard lets an engine
  ignore decimal digits after the twentieth; V8 converts all of them, as here.)
\<close>

definition parseInt :: "string \<Rightarrow> jsnum" where
  "parseInt inputString =
     (let S = dropWhile isWhiteSpace inputString;
          sign = (if S \<noteq> [] \<and> hd S = CHR ''-'' then - 1 else 1 :: int);
          S = (if S \<noteq> [] \<and> (hd S = CHR ''+'' \<or> hd S = CHR ''-'') then tl S else S);
          stripPrefix = (take 2 S = ''0x'' \<or> take 2 S = ''0X'');
          R = (if stripPrefix then 16 else 10 :: nat);
          S = (if stripPrefix then drop 2 S else S);
          Z = takeWhile (isDigit R) S
      in if Z = [] then NaN else roundToDouble (sign * mathInt R Z))"

text \<open>
  A query parameter with a numeric default: \<^verbatim>\<open>parseInt(50)\<close> is \<open>50\<close>. The defaults in
  the source are 0, 50 and 1.
\<close>

definition parseIntParam :: "int \<Rightarrow> string option \<Rightarrow> jsnum" where
  "parseIntParam dflt p = (case p of None \<Rightarrow> Num dflt | Some s \<Rightarrow> parseInt s)"

text \<open>
  \<^verbatim>\<open>a + b\<close> on Numbers: the exact sum, rounded; an infinity absorbs a finite number, and
  the sum of the two opposite infinities is \<^verbatim>\<open>NaN\<close>.
\<close>

definition plus_js :: "jsnum \<Rightarrow> jsnum \<Rightarrow> jsnum" where
  "plus_js a b =
     (case (a, b) of
        (Num x, Num y) \<Rightarrow> roundToDouble (x + y)
      | (NaN, _) \<Rightarrow> NaN
      | (_, NaN) \<Rightarrow> NaN
      | (PosInfinity, NegInfinity) \<Rightarrow> NaN
      | (NegInfinity, PosInfinity) \<Rightarrow> NaN
      | (PosInfinity, _) \<Rightarrow> PosInfinity
      | (_, PosInfinity) \<Rightarrow> PosInfinity
      | (NegInfinity, _) \<Rightarrow> NegInfinity
      | (_, NegInfinity) \<Rightarrow> NegInfinity)"

text \<open>\<^verbatim>\<open>a < n\<close> for a number \<open>a\<close> and an array length \<open>n\<close>; false when \<open>a\<close> is \<^verbatim>\<open>NaN\<close>.\<close>

definition less_js :: "jsnum \<Rightarrow> nat \<Rightarrow> bool" where
  "less_js a n =
     (case a of
        Num x \<Rightarrow> x < int n
      | NaN \<Rightarrow> False
      | PosInfinity \<Rightarrow> False
      | NegInfinity \<Rightarrow> True)"

text \<open>
  \<^verbatim>\<open>Array.prototype.slice(start, end)\<close>: each argument goes through
  \<^verbatim>\<open>ToIntegerOrInfinity\<close> (\<^verbatim>\<open>NaN\<close> becomes 0); minus infinity gives index 0, a negative
  index counts from the end of the array, every index is clamped to the array, and an
  empty range gives \<^verbatim>\<open>[]\<close>.
\<close>

definition clampIndex :: "int \<Rightarrow> jsnum \<Rightarrow> int" where
  "clampIndex len a =
     (case a of
        NaN \<Rightarrow> min 0 len
      | NegInfinity \<Rightarrow> 0
      | PosInfinity \<Rightarrow> len
      | Num relative \<Rightarrow> if relative < 0 then max (len + relative) 0 else min relative len)"

definition slice :: "'a list \<Rightarrow> jsnum \<Rightarrow> jsnum \<Rightarrow> 'a list" where
  "slice xs start end =
     (let len = int (length xs);
          k = clampIndex len start;
          final = clampIndex len end
      in take (nat (final - k)) (drop (nat k) xs))"

subsection \<open>Strings\<close>

text \<open>\<^verbatim>\<open>s.includes(sub)\<close>: \<open>sub\<close> occurs in \<open>s\<close> as a contiguous run.\<close>

definition includes_js :: "string \<Rightarrow> string \<Rightarrow> bool" where
  "includes_js s sub = sublist sub s"

text \<open>A request parameter is truthy when it is present and not the empty string.\<close>

definition truthy :: "string option \<Rightarrow> bool" where
  "truthy p = (case p of None \<Rightarrow> False | Some s \<Rightarrow> s \<noteq> [])"

text \<open>
  \<^verbatim>\<open>String.prototype.toLowerCase\<close> belongs to the runtime. The handlers take it as the
  parameter \<open>lc\<close>, and what is proved holds for every function. On strings of ASCII
  characters the runtime's function is the following one, which the examples use.
\<close>

definition toLowerCaseAscii :: "string \<Rightarrow> string" where
  "toLowerCaseAscii s =
     map (\<lambda>c. case map_of (zip ''ABCDEFGHIJKLMNOPQRSTUVWXYZ'' ''abcdefghijklmnopqrstuvwxyz'') c of
                Some l \<Rightarrow> l
              | None \<Rightarrow> c) s"

section \<open>GET /api/terms\<close>

text \<open>
  \<^verbatim>\<open>req.query\<close>: each of the five parameters is absent (\<^verbatim>\<open>undefined\<close>) or a string.
\<close>

record query =
  category :: "string option"
  difficulty_q :: "string option"
  search :: "string option"
  limit :: "string option"
  offset :: "string option"

record terms_response =
  terms :: "entry list"
  total_n :: nat
  hasMore :: bool
  categories :: "string list"
  difficulties :: "string list"

text \<open>An exception thrown in a handler reaches the error middleware (status 500).\<close>

datatype error = TypeError | NotFound

text \<open>
  \<^verbatim>\<open>let filteredTerms = [...allTerms];
  if (category && category !== 'all') {
    const categoryTerms = programmingTermsDatabase[category] || [];
    filteredTerms = categoryTerms;
  }\<close>
\<close>

definition categoryFilter :: "catalog \<Rightarrow> string option \<Rightarrow> jsvalue" where
  "categoryFilter db c =
     (if truthy c \<and> c \<noteq> Some ''all''
      then orEmptyArray (getProperty db (the c))
      else Array (allTerms db))"

text \<open>
  \<^verbatim>\<open>if (difficulty && difficulty !== 'all') {
    filteredTerms = filteredTerms.filter(term => term.difficulty === difficulty);
  }\<close>
\<close>

definition difficultyFilter :: "string option \<Rightarrow> entry list \<Rightarrow> entry list" where
  "difficultyFilter d ts =
     (if truthy d \<and> d \<noteq> Some ''all''
      then filter (\<lambda>t. difficulty t = the d) ts
      else ts)"

text \<open>
  \<^verbatim>\<open>term.name.toLowerCase().includes(searchLower) ||
  term.chinese.includes(search) ||
  term.description.toLowerCase().includes(searchLower) ||
  term.tags.some(tag => tag.toLowerCase().includes(searchLower))\<close>
\<close>

definition searchMatch :: "(string \<Rightarrow> string) \<Rightarrow> string \<Rightarrow> entry \<Rightarrow> bool" where
  "searchMatch lc s t =
     (let searchLower = lc s in
      includes_js (lc (name t)) searchLower \<or>
      includes_js (chinese t) s \<or>
      includes_js (lc (description t)) searchLower \<or>
      list_ex (\<lambda>tag. includes_js (lc tag) searchLower) (tags t))"

definition searchFilter :: "(string \<Rightarrow> string) \<Rightarrow> string option \<Rightarrow> entry list \<Rightarrow> entry list" where
  "searchFilter lc s ts =
     (if truthy s then filter (searchMatch lc (the s)) ts else ts)"

text \<open>
  The value of \<^verbatim>\<open>filteredTerms\<close> before pagination. Every path through the handler
  calls an array method on the working set (\<^verbatim>\<open>filter\<close>, or at the latest \<^verbatim>\<open>slice\<close>),
  and on a value that is not an array that call throws a \<^verbatim>\<open>TypeError\<close>.
\<close>

definition filteredTerms :: "(string \<Rightarrow> string) \<Rightarrow> catalog \<Rightarrow> query \<Rightarrow> error + entry list" where
  "filteredTerms lc db q =
     (case categoryFilter db (category q) of
        Array ts \<Rightarrow> Inr (searchFilter lc (search q) (difficultyFilter (difficulty_q q) ts))
      | _ \<Rightarrow> Inl TypeError)"

text \<open>
  \<^verbatim>\<open>const { category, difficulty, search, limit = 50, offset = 0 } = req.query;
  ...
  const startIndex = parseInt(offset);
  const endIndex = startIndex + parseInt(limit);
  const paginatedTerms = filteredTerms.slice(startIndex, endIndex);
  res.json({ terms: paginatedTerms, total: filteredTerms.length,
             hasMore: endIndex < filteredTerms.length,
             categories: Object.keys(programmingTermsDatabase),
             difficulties: ['beginner', 'intermediate', 'advanced'] });\<close>
\<close>

definition startIndex :: "query \<Rightarrow> jsnum" where
  "startIndex q = parseIntParam 0 (offset q)"

definition endIndex :: "query \<Rightarrow> jsnum" where
  "endIndex q = plus_js (startIndex q) (parseIntParam 50 (limit q))"

definition terms_handler :: "(string \<Rightarrow> string) \<Rightarrow> catalog \<Rightarrow> query \<Rightarrow> error + terms_response" where
  "terms_handler lc db q =
     (case filteredTerms lc db q of
        Inl e \<Rightarrow> Inl e
      | Inr fs \<Rightarrow>
          Inr \<lparr> terms = slice fs (startIndex q) (endIndex q),
                total_n = length fs,
                hasMore = less_js (endIndex q) (length fs),
                categories = keys db,
                difficulties = [''beginner'', ''intermediate'', ''advanced''] \<rparr>)"

section \<open>GET /api/terms/:id\<close>

record related_ref =
  id_r :: string
  name_r :: string
  chinese_r :: string

text \<open>
  \<^verbatim>\<open>t.id !== term.id &&
  (t.tags.some(tag => term.tags.includes(tag)) ||
   term.relatedTerms?.some(related => t.name.includes(related)))\<close>
\<close>

definition isRelated :: "entry \<Rightarrow> entry \<Rightarrow> bool" where
  "isRelated src t =
     (id_t t \<noteq> id_t src \<and>
      (list_ex (\<lambda>tag. tag \<in> set (tags src)) (tags t) \<or>
       (case relatedTerms src of
          None \<Rightarrow> False
        | Some rs \<Rightarrow> list_ex (\<lambda>related. includes_js (name t) related) rs)))"

definition findRelated :: "catalog \<Rightarrow> entry \<Rightarrow> entry list" where
  "findRelated db src = slice (filter (isRelated src) (allTerms db)) (Num 0) (Num 5)"

definition project :: "entry \<Rightarrow> related_ref" where
  "project t = \<lparr> id_r = id_t t, name_r = name t, chinese_r = chinese t \<rparr>"

text \<open>
  \<^verbatim>\<open>const term = allTerms.find(t => t.id === req.params.id);
  if (!term) { return res.status(404).json({ error: 'Term not found' }); }
  ...
  res.json({ ...term, relatedTerms: relatedTerms.map(t => ({ id: t.id, name: t.name,
                                                               chinese: t.chinese })) });\<close>
\<close>

definition term_handler :: "catalog \<Rightarrow> string \<Rightarrow> error + related_ref list Term" where
  "term_handler db i =
     (case find (\<lambda>t. id_t t = i) (allTerms db) of
        None \<Rightarrow> Inl NotFound
      | Some src \<Rightarrow>
          Inr \<lparr> id_t = id_t src, name = name src, chinese = chinese src,
                description = description src, difficulty = difficulty src,
                tags = tags src, example = example src, useCases = useCases src,
                relatedTerms = map project (findRelated db src) \<rparr>)"

section \<open>GET /api/random\<close>

text \<open>
  \<^verbatim>\<open>const { count = 1 } = req.query;
  const shuffled = [...allTerms].sort(() => 0.5 - Math.random());
  const randomTerms = shuffled.slice(0, parseInt(count));\<close>

  The order that the runtime's sort produces under the random comparator is the
  parameter \<open>sortRandom\<close>. The sort only moves the elements of the array, so the
  theorems assume that \<open>sortRandom\<close> returns a permutation of its argument.
\<close>

definition random_handler :: "(entry list \<Rightarrow> entry list) \<Rightarrow> catalog \<Rightarrow> string option \<Rightarrow> entry list" where
  "random_handler sortRandom db cnt =
     (let shuffled = sortRandom (allTerms db)
      in slice shuffled (Num 0) (parseIntParam 1 cnt))"

section \<open>GET /api/stats\<close>

record difficulty_counts =
  beginner :: nat
  intermediate :: nat
  advanced :: nat

record stats =
  totalTerms :: nat
  categories_n :: nat
  byDifficulty :: difficulty_counts
  byCategory :: "(string \<times> nat) list"
  lastUpdated :: string

text \<open>The time stamp \<^verbatim>\<open>new Date().toISOString()\<close> is an input of the model.\<close>

definition stats_handler :: "catalog \<Rightarrow> string \<Rightarrow> stats" where
  "stats_handler db now =
     \<lparr> totalTerms = length (allTerms db),
       categories_n = length (keys db),
       byDifficulty =
         \<lparr> beginner = length (filter (\<lambda>t. difficulty t = ''beginner'') (allTerms db)),
           intermediate = length (filter (\<lambda>t. difficulty t = ''intermediate'') (allTerms db)),
           advanced = length (filter (\<lambda>t. difficulty t = ''advanced'') (allTerms db)) \<rparr>,
       byCategory = map (\<lambda>key. (key, length (the (map_of db key)))) (keys db),
       lastUpdated = now \<rparr>"

section \<open>The example scenario of the specification\<close>

definition a1 :: entry where
  "a1 = \<lparr> id_t = ''a1'', name = ''closure'', chinese = ''bibao'',
           description = ''function with its environment'',
           difficulty = ''intermediate'', tags = [''scope''], example = ''f()'',
           useCases = [''modules''], relatedTerms = Some [''hoisting''] \<rparr>"

definition a2 :: entry where
  "a2 = \<lparr> id_t = ''a2'', name = ''hoisting'', chinese = ''tisheng'',
           description = ''declarations move up'',
           difficulty = ''intermediate'', tags = [''scope''], example = ''var x'',
           useCases = [''debugging''], relatedTerms = Some [''closure''] \<rparr>"

definition b1 :: entry where
  "b1 = \<lparr> id_t = ''b1'', name = ''jsx'', chinese = ''JSX yufa'',
           description = ''markup in code'',
           difficulty = ''beginner'', tags = [''rendering''], example = ''<div/>'',
           useCases = [''components''], relatedTerms = None \<rparr>"

definition exampleCatalog :: catalog where
  "exampleCatalog = [(''catA'', [a1, a2]), (''catB'', [b1])]"

definition noParams :: query where
  "noParams = \<lparr> category = None, difficulty_q = None, search = None, limit = None, offset = None \<rparr>"

section \<open>Notions of the specification\<close>

text \<open>
  \<open>termsOf\<close> as the specification defines it (section 4.1): the category's own term
  sequence, or the empty sequence when the name is not a category.
\<close>

definition termsOf :: "catalog \<Rightarrow> string \<Rightarrow> entry list" where
  "termsOf db c = (case map_of db c of Some ts \<Rightarrow> ts | None \<Rightarrow> [])"

text \<open>\<^verbatim>\<open>String.prototype.trim\<close>: white space is removed at both ends.\<close>

definition trim :: "string \<Rightarrow> string" where
  "trim s = rev (dropWhile isWhiteSpace (rev (dropWhile isWhiteSpace s)))"

text \<open>
  The search predicate as the specification words it (section 4.2): the lowercase
  trimmed query is a substring of the name, of the localized label (compared as it
  is), of the description, or of a tag.
\<close>

definition spec_searchMatch :: "(string \<Rightarrow> string) \<Rightarrow> string \<Rightarrow> entry \<Rightarrow> bool" where
  "spec_searchMatch lc s t =
     (let query = lc (trim s) in
      sublist query (lc (name t)) \<or>
      sublist query (chinese t) \<or>
      sublist query (lc (description t)) \<or>
      list_ex (\<lambda>tag. sublist query (lc tag)) (tags t))"

section \<open>Auxiliary facts\<close>

subsection \<open>Facts about rounding\<close>

lemma excessBits_small: "m < 2 ^ 53 \<Longrightarrow> excessBits m = 0"
  by (simp add: excessBits_def)

lemma excessBits_step: "2 ^ 53 \<le> m \<Longrightarrow> excessBits m = Suc (excessBits (m div 2))"
  by (simp add: excessBits_def)

lemma excessBits_large:
  "2 ^ 53 \<le> m \<Longrightarrow> 0 < excessBits m \<and> 2 ^ 52 \<le> m div 2 ^ excessBits m"
proof (induction "nat m" arbitrary: m rule: less_induct)
  case less
  have e: "excessBits m = Suc (excessBits (m div 2))"
    using less.prems by (rule excessBits_step)
  show ?case
  proof (cases "m div 2 < 2 ^ 53")
    case True
    have "2 ^ 52 \<le> m div 2" using less.prems by simp
    then show ?thesis
      unfolding e excessBits_small [OF True] by simp
  next
    case False
    moreover have "nat (m div 2) < nat m" using less.prems by simp
    ultimately have "2 ^ 52 \<le> (m div 2) div 2 ^ excessBits (m div 2)"
      using less.hyps by simp
    then show ?thesis
      unfolding e by (simp add: zdiv_zmult2_eq)
  qed
qed

lemma roundToDouble_exact:
  assumes "\<bar>x\<bar> < 2 ^ 53"
  shows "roundToDouble x = Num x"
proof -
  have e: "excessBits \<bar>x\<bar> = 0"
    using assms by (rule excessBits_small)
  show ?thesis
    unfolding roundToDouble_def Let_def e by simp
qed

lemma roundToDouble_large:
  assumes "2 ^ 53 \<le> \<bar>x\<bar>"
  shows "if x < 0 then roundToDouble x = NegInfinity \<or> (\<exists>y. roundToDouble x = Num y \<and> y \<le> - (2 ^ 53))
         else roundToDouble x = PosInfinity \<or> (\<exists>y. roundToDouble x = Num y \<and> 2 ^ 53 \<le> y)"
proof -
  define e where "e = excessBits \<bar>x\<bar>"
  define q where "q = \<bar>x\<bar> div 2 ^ e"
  define r where "r = \<bar>x\<bar> mod 2 ^ e"
  define s where "s = (if 2 ^ e < 2 * r \<or> (2 * r = 2 ^ e \<and> odd q) then q + 1 else q)"
  have e: "0 < e" and q: "2 ^ 52 \<le> q"
    using excessBits_large [OF assms] unfolding e_def q_def by simp_all
  have "2 ^ 52 \<le> s" using q unfolding s_def by simp
  moreover have "(2::int) ^ 1 \<le> 2 ^ e"
    using e by (intro power_increasing) simp_all
  ultimately have "(2::int) ^ 52 * 2 ^ 1 \<le> s * 2 ^ e"
    by (intro mult_mono) simp_all
  then have big: "2 ^ 53 \<le> s * 2 ^ e"
    by simp
  have eq: "roundToDouble x =
          (if 971 < e \<or> (e = 971 \<and> s = 2 ^ 53)
           then (if x < 0 then NegInfinity else PosInfinity)
           else Num (if x < 0 then - (s * 2 ^ e) else s * 2 ^ e))"
    unfolding roundToDouble_def Let_def s_def r_def q_def e_def ..
  show ?thesis
  proof (cases "971 < e \<or> (e = 971 \<and> s = 2 ^ 53)")
    case True
    then have "roundToDouble x = (if x < 0 then NegInfinity else PosInfinity)"
      unfolding eq by (rule if_P)
    then show ?thesis by simp
  next
    case False
    then have "roundToDouble x = Num (if x < 0 then - (s * 2 ^ e) else s * 2 ^ e)"
      unfolding eq by (rule if_not_P)
    then show ?thesis using big by simp
  qed
qed

subsection \<open>Facts about slice\<close>

lemma clampIndex_bounds: "0 \<le> len \<Longrightarrow> 0 \<le> clampIndex len a \<and> clampIndex len a \<le> len"
  by (cases a) (simp_all add: clampIndex_def)

lemma length_slice:
  "int (length (slice xs a b)) =
     max 0 (clampIndex (int (length xs)) b - clampIndex (int (length xs)) a)"
proof -
  let ?n = "int (length xs)"
  have "0 \<le> clampIndex ?n a" "clampIndex ?n a \<le> ?n" "clampIndex ?n b \<le> ?n"
    using clampIndex_bounds [of ?n] by simp_all
  then show ?thesis
    unfolding slice_def Let_def by simp
qed

lemma slice_from_zero: "0 \<le> n \<Longrightarrow> slice xs (Num 0) (Num n) = take (nat n) xs"
  by (auto simp: slice_def clampIndex_def Let_def min_def)

lemma length_slice_nonneg:
  assumes "0 \<le> s" "0 \<le> l"
  shows "int (length (slice xs (Num s) (Num (s + l)))) = min l (max 0 (int (length xs) - s))"
  using assms unfolding length_slice
  by (simp add: clampIndex_def)

lemma slice_negative_end:
  assumes "n < 0"
  shows "slice xs (Num 0) (Num n) = take (length xs - nat (- n)) xs"
proof -
  have "nat (max (int (length xs) + n) 0) = length xs - nat (- n)"
    using assms by linarith
  then show ?thesis using assms
    by (simp add: slice_def clampIndex_def)
qed

lemma sublist_slice: "sublist (slice xs a b) xs"
  unfolding slice_def Let_def
  by (meson sublist_drop sublist_order.order_trans sublist_take)

lemma slice_zero_take: "\<exists>k. slice xs (Num 0) b = take k xs"
  by (simp add: slice_def clampIndex_def Let_def) blast


subsection \<open>Facts about the catalog\<close>

lemma map_of_allTerms: "map_of db c = Some ts \<Longrightarrow> set ts \<subseteq> set (allTerms db)"
  by (auto simp: allTerms_def dest!: map_of_SomeD intro!: bexI [of _ "(c, ts)"])

lemma find_by_id:
  assumes "i \<in> set (map id_t xs)"
  shows "\<exists>src. find (\<lambda>t. id_t t = i) xs = Some src \<and> id_t src = i \<and> src \<in> set xs"
  using assms by (induction xs) auto

subsection \<open>The working set and the filters\<close>

lemma categoryFilter_cases:
  "categoryFilter db c = Array ws \<Longrightarrow>
     ws = allTerms db \<or> map_of db (the c) = Some ws \<or> (map_of db (the c) = None \<and> ws = [])"
  by (auto simp: categoryFilter_def orEmptyArray_def getProperty_def
           split: if_splits option.splits jsvalue.splits)

lemma categoryFilter_named:
  assumes "c \<noteq> []" "c \<noteq> ''all''"
  shows "categoryFilter db (Some c) =
           (case map_of db c of
              Some ts \<Rightarrow> Array ts
            | None \<Rightarrow> if c \<in> set objectPrototypeKeys then PrototypeMember else Array [])"
  using assms
  by (simp add: categoryFilter_def truthy_def orEmptyArray_def getProperty_def
           split: option.splits)

lemma filteredTerms_Inr:
  "filteredTerms lc db q = Inr fs \<longleftrightarrow>
     (\<exists>ws. categoryFilter db (category q) = Array ws \<and>
           fs = searchFilter lc (search q) (difficultyFilter (difficulty_q q) ws))"
  by (auto simp: filteredTerms_def split: jsvalue.splits)

lemma terms_handler_Inr:
  "terms_handler lc db q = Inr r \<longleftrightarrow>
     (\<exists>fs. filteredTerms lc db q = Inr fs \<and>
           r = \<lparr> terms = slice fs (startIndex q) (endIndex q), total_n = length fs,
                 hasMore = less_js (endIndex q) (length fs), categories = keys db,
                 difficulties = [''beginner'', ''intermediate'', ''advanced''] \<rparr>)"
  by (auto simp: terms_handler_def split: sum.splits)

lemma subseq_difficultyFilter: "subseq (difficultyFilter d ws) ws"
  by (simp add: difficultyFilter_def)

lemma subseq_searchFilter: "subseq (searchFilter lc s ws) ws"
  by (simp add: searchFilter_def)

lemma searchMatch_iff:
  "searchMatch lc s t \<longleftrightarrow>
     sublist (lc s) (lc (name t)) \<or> sublist s (chinese t) \<or>
     sublist (lc s) (lc (description t)) \<or> (\<exists>tag\<in>set (tags t). sublist (lc s) (lc tag))"
  by (simp add: searchMatch_def includes_js_def list_ex_iff Let_def)

subsection \<open>Counting\<close>

lemma filter3_length:
  assumes "\<And>x. \<not> (P x \<and> Q x)" "\<And>x. \<not> (P x \<and> R x)" "\<And>x. \<not> (Q x \<and> R x)"
  shows "length (filter P xs) + length (filter Q xs) + length (filter R xs)
         = length (filter (\<lambda>x. P x \<or> Q x \<or> R x) xs)"
  using assms by (induction xs) auto

lemma length_filter_eq_iff: "length (filter P xs) = length xs \<longleftrightarrow> (\<forall>x\<in>set xs. P x)"
  by (metis filter_id_conv length_filter_less nat_less_le filter_True)

lemma handler_from_working_set:
  assumes "categoryFilter db (category q) = Array ws"
  shows "\<exists>fs r. filteredTerms lc db q = Inr fs \<and> subseq fs ws \<and>
                terms_handler lc db q = Inr r \<and> total_n r = length fs \<and>
                sublist (terms r) fs \<and> subseq (terms r) ws"
proof -
  let ?fs = "searchFilter lc (search q) (difficultyFilter (difficulty_q q) ws)"
  have fs: "filteredTerms lc db q = Inr ?fs"
    using assms by (simp add: filteredTerms_Inr)
  have sub: "subseq ?fs ws"
    using subseq_searchFilter subseq_difficultyFilter subseq_order.order_trans by blast
  obtain r where r: "terms_handler lc db q = Inr r" "total_n r = length ?fs"
      "terms r = slice ?fs (startIndex q) (endIndex q)"
    using fs by (simp add: terms_handler_def)
  have page: "sublist (terms r) ?fs"
    by (simp add: r(3) sublist_slice)
  then have "subseq (terms r) ws"
    using sub sublist_imp_subseq subseq_order.order_trans by blast
  then show ?thesis
    using fs sub r page by blast
qed

lemma handler_working_set:
  assumes "terms_handler lc db q = Inr r"
  shows "\<exists>ws. categoryFilter db (category q) = Array ws \<and> subseq (terms r) ws \<and>
              total_n r \<le> length ws"
proof -
  obtain fs where fs: "filteredTerms lc db q = Inr fs"
    using assms by (auto simp: terms_handler_Inr)
  then obtain ws where ws: "categoryFilter db (category q) = Array ws"
    by (auto simp: filteredTerms_Inr)
  from handler_from_working_set [OF ws, of lc] assms fs
  have "subseq fs ws" "total_n r = length fs" "subseq (terms r) ws"
    by auto
  then show ?thesis
    using ws subseq_same_length linorder_not_less
    by (metis list_emb_length)
qed

lemma handler_total_terms:
  assumes "terms_handler lc db q = Inr r"
  shows "\<exists>fs. filteredTerms lc db q = Inr fs \<and> total_n r = length fs \<and>
              terms r = slice fs (startIndex q) (endIndex q) \<and>
              hasMore r = less_js (endIndex q) (length fs)"
  using assms by (auto simp: terms_handler_Inr)

lemma filteredTerms_difficulty:
  assumes "filteredTerms lc db q = Inr fs" and "difficulty_q q = Some d" and "d \<noteq> []"
    and "d \<noteq> ''all''"
  shows "\<forall>t \<in> set fs. difficulty t = d \<and> t \<in> set (allTerms db)"
proof -
  obtain ws where ws: "categoryFilter db (category q) = Array ws"
      "fs = searchFilter lc (search q) (difficultyFilter (difficulty_q q) ws)"
    using assms(1) by (auto simp: filteredTerms_Inr)
  have "set ws \<subseteq> set (allTerms db)"
    using categoryFilter_cases [OF ws(1)] map_of_allTerms by auto
  then show ?thesis
    using assms(2-4) unfolding ws(2)
    by (auto simp: searchFilter_def difficultyFilter_def truthy_def)
qed

lemma filteredTerms_search:
  assumes "filteredTerms lc db (q\<lparr>search := None\<rparr>) = Inr fs0"
  shows "filteredTerms lc db (q\<lparr>search := s\<rparr>) = Inr (searchFilter lc s fs0)"
  using assms
  by (auto simp: filteredTerms_def searchFilter_def truthy_def split: jsvalue.splits)

lemma filteredTerms_no_search:
  "filteredTerms lc db (q\<lparr>search := None\<rparr>) = Inr fs0 \<longleftrightarrow>
     (\<exists>ws. categoryFilter db (category q) = Array ws \<and>
           fs0 = difficultyFilter (difficulty_q q) ws)"
  by (auto simp: filteredTerms_Inr searchFilter_def truthy_def)

lemma findRelated_take: "findRelated db src = take 5 (filter (isRelated src) (allTerms db))"
  using slice_from_zero [of 5 "filter (isRelated src) (allTerms db)"]
  by (simp add: findRelated_def)

lemma isRelated_iff:
  "isRelated src t \<longleftrightarrow>
     id_t t \<noteq> id_t src \<and>
     ((\<exists>tag \<in> set (tags t). tag \<in> set (tags src)) \<or>
      (\<exists>related \<in> set (case relatedTerms src of None \<Rightarrow> [] | Some rs \<Rightarrow> rs).
          sublist related (name t)))"
  by (auto simp: isRelated_def includes_js_def list_ex_iff split: option.splits)

lemma mset_take_subset: "mset (take k xs) \<subseteq># mset xs"
  by (metis append_take_drop_id mset_append mset_subset_eq_add_left)

lemma distinct_map_take: "distinct (map f xs) \<Longrightarrow> distinct (map f (take k xs))"
  by (simp add: take_map [symmetric])

lemma endIndex_cases:
  assumes "startIndex q = Num off" and "parseIntParam 50 (limit q) = Num lim"
  shows "(\<bar>off + lim\<bar> < 2 ^ 53 \<and> endIndex q = Num (off + lim)) \<or>
         (2 ^ 53 \<le> off + lim \<and>
            (endIndex q = PosInfinity \<or> (\<exists>y. endIndex q = Num y \<and> 2 ^ 53 \<le> y))) \<or>
         (off + lim \<le> - (2 ^ 53) \<and>
            (endIndex q = NegInfinity \<or> (\<exists>y. endIndex q = Num y \<and> y \<le> - (2 ^ 53))))"
proof -
  have e: "endIndex q = roundToDouble (off + lim)"
    using assms by (simp add: endIndex_def plus_js_def)
  show ?thesis
  proof (cases "\<bar>off + lim\<bar> < 2 ^ 53")
    case True
    then show ?thesis
      unfolding e using roundToDouble_exact [OF True] by simp
  next
    case False
    then have "2 ^ 53 \<le> \<bar>off + lim\<bar>" by simp
    from roundToDouble_large [OF this] False show ?thesis
      unfolding e by (cases "off + lim < 0") auto
  qed
qed

section \<open>Filtering\<close>

text \<open>
  C7. Whatever the category, difficulty and search parameters are, as soon as the
  working set is an array \<open>ws\<close> (all terms, or the sequence of the selected category) the
  handler answers, the filtered sequence is a subsequence of \<open>ws\<close> in the order of \<open>ws\<close>, and
  the page is a contiguous part of the filtered sequence: nothing is reordered.
\<close>

theorem filtering_preserves_order:
  assumes "categoryFilter db (category q) = Array ws"
  shows "(ws = allTerms db \<or> ws = termsOf db (the (category q))) \<and>
         (\<exists>fs r. filteredTerms lc db q = Inr fs \<and> subseq fs ws \<and>
                 terms_handler lc db q = Inr r \<and> total_n r = length fs \<and>
                 sublist (terms r) fs \<and> subseq (terms r) ws)"
proof -
  have "ws = allTerms db \<or> ws = termsOf db (the (category q))"
    using categoryFilter_cases [OF assms] by (auto simp: termsOf_def)
  then show ?thesis
    using handler_from_working_set [OF assms] by blast
qed

theorem filtering_preserves_order_witness:
  "categoryFilter exampleCatalog
      (category (noParams\<lparr>category := Some ''catA'', search := Some ''hoist''\<rparr>)) = Array [a1, a2] \<and>
   terms_handler toLowerCaseAscii exampleCatalog
       (noParams\<lparr>category := Some ''catA'', search := Some ''hoist''\<rparr>)
     = Inr \<lparr> terms = [a2], total_n = 1, hasMore = False, categories = [''catA'', ''catB''],
             difficulties = [''beginner'', ''intermediate'', ''advanced''] \<rparr> \<and>
   subseq [a2] [a1, a2]"
proof -
  let ?q = "noParams\<lparr>category := Some ''catA'', search := Some ''hoist''\<rparr>"
  have ws: "categoryFilter exampleCatalog (category ?q) = Array [a1, a2]"
    by code_simp
  have r: "terms_handler toLowerCaseAscii exampleCatalog ?q
     = Inr \<lparr> terms = [a2], total_n = 1, hasMore = False, categories = [''catA'', ''catB''],
             difficulties = [''beginner'', ''intermediate'', ''advanced''] \<rparr>"
    by code_simp
  from filtering_preserves_order [OF ws, of toLowerCaseAscii]
  have "subseq [a2] [a1, a2]"
    unfolding r by auto
  with ws r show ?thesis by blast
qed

text \<open>
  C1, amended. For a query whose category parameter \<open>c\<close> is neither the empty string nor
  \<^verbatim>\<open>all\<close>, and which the handler answers, the working set is exactly \<open>termsOf c\<close>: the
  category's own sequence takes the place of \<open>allTerms\<close>. Every term of the page belongs to
  it, in its order, and the total is at most its length.
\<close>

theorem category_working_set:
  assumes "category q = Some c" and "c \<noteq> []" and "c \<noteq> ''all''"
    and "terms_handler lc db q = Inr r"
  shows "categoryFilter db (category q) = Array (termsOf db c) \<and>
         subseq (terms r) (termsOf db c) \<and>
         set (terms r) \<subseteq> set (termsOf db c) \<and>
         total_n r \<le> length (termsOf db c)"
proof -
  obtain ws where ws: "categoryFilter db (category q) = Array ws"
      "subseq (terms r) ws" "total_n r \<le> length ws"
    using handler_working_set [OF assms(4)] by blast
  have "ws = termsOf db c"
    using ws(1) assms(1-3)
    by (auto simp: categoryFilter_named termsOf_def split: option.splits if_splits)
  then show ?thesis
    using ws list_emb_set [of "(=)" "terms r" ws] by auto
qed

theorem category_working_set_witness:
  "category (noParams\<lparr>category := Some ''catB''\<rparr>) = Some ''catB'' \<and>
   ''catB'' \<noteq> [] \<and> ''catB'' \<noteq> ''all'' \<and>
   terms_handler toLowerCaseAscii exampleCatalog (noParams\<lparr>category := Some ''catB''\<rparr>)
     = Inr \<lparr> terms = [b1], total_n = 1, hasMore = False, categories = [''catA'', ''catB''],
             difficulties = [''beginner'', ''intermediate'', ''advanced''] \<rparr> \<and>
   categoryFilter exampleCatalog (Some ''catB'') = Array (termsOf exampleCatalog ''catB'') \<and>
   termsOf exampleCatalog ''catB'' = [b1]"
proof -
  let ?q = "noParams\<lparr>category := Some ''catB''\<rparr>"
  have c: "category ?q = Some ''catB''" by simp
  have r: "terms_handler toLowerCaseAscii exampleCatalog ?q
     = Inr \<lparr> terms = [b1], total_n = 1, hasMore = False, categories = [''catA'', ''catB''],
             difficulties = [''beginner'', ''intermediate'', ''advanced''] \<rparr>"
    by code_simp
  have t: "termsOf exampleCatalog ''catB'' = [b1]" by code_simp
  from category_working_set [OF c _ _ r]
  have "categoryFilter exampleCatalog (category ?q) = Array (termsOf exampleCatalog ''catB'')"
    by simp
  with c r t show ?thesis by simp
qed

text \<open>
  A category parameter that is present but empty (\<^verbatim>\<open>?category=\<close>) is falsy: the guard
  \<^verbatim>\<open>category && category !== 'all'\<close> skips the replacement, and the working set stays
  \<open>allTerms\<close> where \<open>termsOf\<close> of the empty name is empty.
\<close>

theorem empty_category_counterexample:
  "categoryFilter exampleCatalog (Some '''') = Array [a1, a2, b1] \<and>
   termsOf exampleCatalog '''' = [] \<and>
   terms_handler toLowerCaseAscii exampleCatalog (noParams\<lparr>category := Some ''''\<rparr>)
     = Inr \<lparr> terms = [a1, a2, b1], total_n = 3, hasMore = False,
             categories = [''catA'', ''catB''],
             difficulties = [''beginner'', ''intermediate'', ''advanced''] \<rparr>"
  by code_simp

section \<open>Unknown filter values\<close>

text \<open>
  C9, amended. A category parameter that is not empty, not \<^verbatim>\<open>all\<close>, not a key of the
  catalog and not the name of a member of \<^verbatim>\<open>Object.prototype\<close> gives the empty working
  set, and the handler answers with no terms and total 0. A difficulty parameter \<open>d\<close> that is
  not empty and not \<^verbatim>\<open>all\<close> keeps exactly the terms whose difficulty is the string \<open>d\<close>
  itself, so a value that no term carries gives no terms and total 0.
\<close>

theorem unknown_category_or_difficulty:
  "(category q = Some c \<and> c \<noteq> [] \<and> c \<noteq> ''all'' \<and> map_of db c = None \<and>
      c \<notin> set objectPrototypeKeys
    \<longrightarrow> categoryFilter db (category q) = Array [] \<and>
        (\<exists>r. terms_handler lc db q = Inr r \<and> terms r = [] \<and> total_n r = 0)) \<and>
   (difficulty_q q = Some d \<and> d \<noteq> [] \<and> d \<noteq> ''all'' \<and> terms_handler lc db q = Inr r'
    \<longrightarrow> (\<forall>t \<in> set (terms r'). difficulty t = d) \<and>
        ((\<forall>t \<in> set (allTerms db). difficulty t \<noteq> d) \<longrightarrow> terms r' = [] \<and> total_n r' = 0))"
proof (intro conjI impI)
  assume a: "category q = Some c \<and> c \<noteq> [] \<and> c \<noteq> ''all'' \<and> map_of db c = None \<and>
      c \<notin> set objectPrototypeKeys"
  then show ws: "categoryFilter db (category q) = Array []"
    by (simp add: categoryFilter_named)
  from handler_from_working_set [OF ws, of lc]
  show "\<exists>r. terms_handler lc db q = Inr r \<and> terms r = [] \<and> total_n r = 0"
    by auto
next
  assume b: "difficulty_q q = Some d \<and> d \<noteq> [] \<and> d \<noteq> ''all'' \<and> terms_handler lc db q = Inr r'"
  then obtain fs where fs: "filteredTerms lc db q = Inr fs" "total_n r' = length fs"
      "terms r' = slice fs (startIndex q) (endIndex q)"
    using handler_total_terms by blast
  have all: "\<forall>t \<in> set fs. difficulty t = d \<and> t \<in> set (allTerms db)"
    using filteredTerms_difficulty [OF fs(1)] b by blast
  have page: "set (terms r') \<subseteq> set fs"
    unfolding fs(3) by (rule set_mono_sublist [OF sublist_slice])
  show "\<forall>t \<in> set (terms r'). difficulty t = d"
    using all page by blast
  {
    assume "\<forall>t \<in> set (allTerms db). difficulty t \<noteq> d"
    then have "fs = []"
      using all by (cases fs) auto
    then show "terms r' = []" "total_n r' = 0"
      using fs page by auto
  }
qed

theorem unknown_category_or_difficulty_witness:
  "map_of exampleCatalog ''catZ'' = None \<and> ''catZ'' \<notin> set objectPrototypeKeys \<and>
   terms_handler toLowerCaseAscii exampleCatalog (noParams\<lparr>category := Some ''catZ''\<rparr>)
     = Inr \<lparr> terms = [], total_n = 0, hasMore = False, categories = [''catA'', ''catB''],
             difficulties = [''beginner'', ''intermediate'', ''advanced''] \<rparr> \<and>
   list_all (\<lambda>t. difficulty t \<noteq> ''Beginner'') (allTerms exampleCatalog) \<and>
   terms_handler toLowerCaseAscii exampleCatalog (noParams\<lparr>difficulty_q := Some ''Beginner''\<rparr>)
     = Inr \<lparr> terms = [], total_n = 0, hasMore = False, categories = [''catA'', ''catB''],
             difficulties = [''beginner'', ''intermediate'', ''advanced''] \<rparr>"
proof -
  let ?qc = "noParams\<lparr>category := Some ''catZ''\<rparr>"
  let ?qd = "noParams\<lparr>difficulty_q := Some ''Beginner''\<rparr>"
  let ?empty = "\<lparr> terms = [], total_n = 0, hasMore = False, categories = [''catA'', ''catB''],
             difficulties = [''beginner'', ''intermediate'', ''advanced''] \<rparr>"
  have c: "category ?qc = Some ''catZ''" "''catZ'' \<noteq> []" "''catZ'' \<noteq> ''all''"
    by simp_all
  have u: "map_of exampleCatalog ''catZ'' = None" by code_simp
  have p: "''catZ'' \<notin> set objectPrototypeKeys" by code_simp
  have d: "difficulty_q ?qd = Some ''Beginner''" "''Beginner'' \<noteq> []" "''Beginner'' \<noteq> ''all''"
    by simp_all
  have rd: "terms_handler toLowerCaseAscii exampleCatalog ?qd = Inr ?empty" by code_simp
  have nd: "list_all (\<lambda>t. difficulty t \<noteq> ''Beginner'') (allTerms exampleCatalog)" by code_simp
  from unknown_category_or_difficulty
         [where q = ?qc and c = "''catZ''" and db = exampleCatalog and lc = toLowerCaseAscii] c u p
  obtain r where r: "terms_handler toLowerCaseAscii exampleCatalog ?qc = Inr r"
      "terms r = []" "total_n r = 0"
    by blast
  have rc: "terms_handler toLowerCaseAscii exampleCatalog ?qc = Inr ?empty"
    by code_simp
  from unknown_category_or_difficulty
         [where q = ?qd and d = "''Beginner''" and db = exampleCatalog and lc = toLowerCaseAscii
            and r' = ?empty] d rd nd
  have "terms ?empty = [] \<and> total_n ?empty = 0"
    by (simp add: list_all_iff)
  then show ?thesis
    using u p rc rd nd r by blast
qed

text \<open>
  Three requests on the example catalog that do not follow the claim as it was stated:
  \<^verbatim>\<open>?category=constructor\<close> reads the inherited member of \<^verbatim>\<open>Object.prototype\<close>, which is
  truthy and not an array, and the handler throws; \<^verbatim>\<open>?category=\<close> and \<^verbatim>\<open>?difficulty=\<close> are
  falsy and filter nothing.
\<close>

theorem unknown_category_counterexample:
  "terms_handler toLowerCaseAscii exampleCatalog (noParams\<lparr>category := Some ''constructor''\<rparr>)
     = Inl TypeError \<and>
   map_of exampleCatalog ''constructor'' = None \<and>
   map_of exampleCatalog '''' = None \<and>
   terms_handler toLowerCaseAscii exampleCatalog (noParams\<lparr>category := Some ''''\<rparr>)
     = Inr \<lparr> terms = [a1, a2, b1], total_n = 3, hasMore = False,
             categories = [''catA'', ''catB''],
             difficulties = [''beginner'', ''intermediate'', ''advanced''] \<rparr> \<and>
   terms_handler toLowerCaseAscii exampleCatalog (noParams\<lparr>difficulty_q := Some ''''\<rparr>)
     = Inr \<lparr> terms = [a1, a2, b1], total_n = 3, hasMore = False,
             categories = [''catA'', ''catB''],
             difficulties = [''beginner'', ''intermediate'', ''advanced''] \<rparr>"
  by code_simp

section \<open>Free-text search\<close>

text \<open>
  C2, amended. For a query whose search parameter \<open>s\<close> is not empty, the filtered result
  keeps exactly the terms, among those that pass the category and difficulty filters,
  for which the lowercased query (as sent, not trimmed) is a substring of the lowercased
  name, or the query as sent is a substring of the localized label, or the lowercased
  query is a substring of the lowercased description or of a lowercased tag.
\<close>

theorem search_filter_exact:
  assumes "search q = Some s" and "s \<noteq> []"
    and "filteredTerms lc db (q\<lparr>search := None\<rparr>) = Inr fs0"
  shows "filteredTerms lc db q =
           Inr (filter (\<lambda>t. sublist (lc s) (lc (name t)) \<or> sublist s (chinese t) \<or>
                            sublist (lc s) (lc (description t)) \<or>
                            (\<exists>tag \<in> set (tags t). sublist (lc s) (lc tag))) fs0) \<and>
         (\<exists>ws. categoryFilter db (category q) = Array ws \<and>
               fs0 = difficultyFilter (difficulty_q q) ws)"
proof -
  have "q\<lparr>search := Some s\<rparr> = q"
    using assms(1) by simp
  with filteredTerms_search [OF assms(3), of "Some s"]
  have "filteredTerms lc db q = Inr (searchFilter lc (Some s) fs0)"
    by simp
  moreover have "searchFilter lc (Some s) fs0 =
      filter (\<lambda>t. sublist (lc s) (lc (name t)) \<or> sublist s (chinese t) \<or>
                  sublist (lc s) (lc (description t)) \<or>
                  (\<exists>tag \<in> set (tags t). sublist (lc s) (lc tag))) fs0"
    using assms(2) searchMatch_iff [of lc s]
    by (simp add: searchFilter_def truthy_def cong: filter_cong)
  ultimately show ?thesis
    using assms(3) by (simp add: filteredTerms_no_search)
qed

theorem search_filter_exact_witness:
  "search (noParams\<lparr>search := Some ''SCOPE''\<rparr>) = Some ''SCOPE'' \<and> ''SCOPE'' \<noteq> [] \<and>
   filteredTerms toLowerCaseAscii exampleCatalog
      (noParams\<lparr>search := Some ''SCOPE'', search := None\<rparr>) = Inr [a1, a2, b1] \<and>
   filteredTerms toLowerCaseAscii exampleCatalog (noParams\<lparr>search := Some ''SCOPE''\<rparr>)
     = Inr [a1, a2]"
proof -
  let ?q = "noParams\<lparr>search := Some ''SCOPE''\<rparr>"
  have s: "search ?q = Some ''SCOPE''" "''SCOPE'' \<noteq> []"
    by simp_all
  have f0: "filteredTerms toLowerCaseAscii exampleCatalog (?q\<lparr>search := None\<rparr>) = Inr [a1, a2, b1]"
    by code_simp
  have f: "filteredTerms toLowerCaseAscii exampleCatalog ?q = Inr [a1, a2]"
    by code_simp
  from search_filter_exact [OF s f0]
  have "\<exists>ws. categoryFilter exampleCatalog (category ?q) = Array ws \<and>
             [a1, a2, b1] = difficultyFilter (difficulty_q ?q) ws"
    by blast
  then show ?thesis
    using s f0 f by blast
qed

text \<open>
  The handler never trims the query. A query with a leading blank matches nothing in the
  example catalog, where the specification's predicate, which trims it, keeps both terms
  tagged \<^verbatim>\<open>scope\<close>.
\<close>

theorem search_not_trimmed_counterexample:
  "filteredTerms toLowerCaseAscii exampleCatalog (noParams\<lparr>search := Some '' scope''\<rparr>) = Inr [] \<and>
   filter (spec_searchMatch toLowerCaseAscii '' scope'') (allTerms exampleCatalog) = [a1, a2]"
  by code_simp

text \<open>
  C6, amended. For a query with a category \<open>c\<close> (not empty, not \<^verbatim>\<open>all\<close>), the search
  parameter does change the result: the filtered sequence for search \<open>s\<close> consists of the
  terms of the same query without search that match \<open>s\<close>, and is that sequence itself only
  when \<open>s\<close> is absent or empty. In every case it lies within \<open>termsOf c\<close>, and the page is
  the slice of it.
\<close>

theorem category_search_dependence:
  assumes "category q = Some c" and "c \<noteq> []" and "c \<noteq> ''all''"
    and "filteredTerms lc db (q\<lparr>search := None\<rparr>) = Inr fs0"
  shows "subseq fs0 (termsOf db c) \<and>
         filteredTerms lc db (q\<lparr>search := s\<rparr>)
           = Inr (if truthy s then filter (searchMatch lc (the s)) fs0 else fs0) \<and>
         (\<exists>r. terms_handler lc db (q\<lparr>search := s\<rparr>) = Inr r \<and>
              terms r = slice (if truthy s then filter (searchMatch lc (the s)) fs0 else fs0)
                          (startIndex q) (endIndex q))"
proof -
  let ?fs = "if truthy s then filter (searchMatch lc (the s)) fs0 else fs0"
  obtain ws where ws: "categoryFilter db (category q) = Array ws"
      "fs0 = difficultyFilter (difficulty_q q) ws"
    using assms(4) by (auto simp: filteredTerms_no_search)
  have "ws = termsOf db c"
    using ws(1) assms(1-3)
    by (auto simp: categoryFilter_named termsOf_def split: option.splits if_splits)
  then have sub: "subseq fs0 (termsOf db c)"
    using ws(2) subseq_difficultyFilter by simp
  have fs: "filteredTerms lc db (q\<lparr>search := s\<rparr>) = Inr ?fs"
    using filteredTerms_search [OF assms(4), of s] by (simp add: searchFilter_def)
  then have "\<exists>r. terms_handler lc db (q\<lparr>search := s\<rparr>) = Inr r \<and>
              terms r = slice ?fs (startIndex q) (endIndex q)"
    by (simp add: terms_handler_def startIndex_def endIndex_def)
  with sub fs show ?thesis by blast
qed

theorem category_search_dependence_witness:
  "category (noParams\<lparr>category := Some ''catA''\<rparr>) = Some ''catA'' \<and>
   ''catA'' \<noteq> [] \<and> ''catA'' \<noteq> ''all'' \<and>
   filteredTerms toLowerCaseAscii exampleCatalog
      (noParams\<lparr>category := Some ''catA'', search := None\<rparr>) = Inr [a1, a2] \<and>
   filteredTerms toLowerCaseAscii exampleCatalog
      (noParams\<lparr>category := Some ''catA'', search := Some ''hoist''\<rparr>)
     = Inr (if truthy (Some ''hoist'')
            then filter (searchMatch toLowerCaseAscii (the (Some ''hoist''))) [a1, a2]
            else [a1, a2]) \<and>
   filter (searchMatch toLowerCaseAscii ''hoist'') [a1, a2] = [a2]"
proof -
  let ?q = "noParams\<lparr>category := Some ''catA''\<rparr>"
  have c: "category ?q = Some ''catA''" "''catA'' \<noteq> []" "''catA'' \<noteq> ''all''"
    by simp_all
  have f0: "filteredTerms toLowerCaseAscii exampleCatalog (?q\<lparr>search := None\<rparr>) = Inr [a1, a2]"
    by code_simp
  have m: "filter (searchMatch toLowerCaseAscii ''hoist'') [a1, a2] = [a2]"
    by code_simp
  from category_search_dependence [OF c f0, of "Some ''hoist''"]
  have "filteredTerms toLowerCaseAscii exampleCatalog (?q\<lparr>search := Some ''hoist''\<rparr>)
     = Inr (if truthy (Some ''hoist'')
            then filter (searchMatch toLowerCaseAscii (the (Some ''hoist''))) [a1, a2]
            else [a1, a2])"
    by blast
  then show ?thesis
    using c f0 m by blast
qed

text \<open>
  With the category \<^verbatim>\<open>catB\<close>, the request without search returns \<open>b1\<close>, and the request
  with the search \<^verbatim>\<open>closure\<close> returns nothing: the search filter runs on the category's
  terms.
\<close>

theorem category_search_counterexample:
  "terms_handler toLowerCaseAscii exampleCatalog (noParams\<lparr>category := Some ''catB''\<rparr>)
     = Inr \<lparr> terms = [b1], total_n = 1, hasMore = False, categories = [''catA'', ''catB''],
             difficulties = [''beginner'', ''intermediate'', ''advanced''] \<rparr> \<and>
   terms_handler toLowerCaseAscii exampleCatalog
       (noParams\<lparr>category := Some ''catB'', search := Some ''closure''\<rparr>)
     = Inr \<lparr> terms = [], total_n = 0, hasMore = False, categories = [''catA'', ''catB''],
             difficulties = [''beginner'', ''intermediate'', ''advanced''] \<rparr> \<and>
   [b1] \<noteq> []"
  by code_simp

section \<open>Pagination\<close>

text \<open>
  C3, amended. Let the handler answer, let the offset and limit parameters (defaults 0
  and 50) parse to Numbers that are integers, \<open>off\<close> and \<open>lim\<close>, and let \<open>total\<close> be the
  length of the filtered sequence before pagination (the length of an array, so below
  \<open>2^32\<close>). Then \<open>hasMore\<close> is \<open>off + lim < total\<close>, also where the sum is rounded by the
  runtime; and when \<open>off\<close> and \<open>lim\<close> are non-negative the page has
  \<open>min lim (max 0 (total - off))\<close> terms.
\<close>

theorem pagination:
  assumes "terms_handler lc db q = Inr r"
    and "parseIntParam 0 (offset q) = Num off" and "parseIntParam 50 (limit q) = Num lim"
    and "total_n r < 2 ^ 32"
  shows "hasMore r = (off + lim < int (total_n r)) \<and>
         (0 \<le> off \<and> 0 \<le> lim \<longrightarrow>
            int (length (terms r)) = min lim (max 0 (int (total_n r) - off)))"
proof -
  obtain fs where fs: "total_n r = length fs"
      "terms r = slice fs (startIndex q) (endIndex q)"
      "hasMore r = less_js (endIndex q) (length fs)"
    using handler_total_terms [OF assms(1)] by blast
  let ?n = "int (length fs)"
  have start: "startIndex q = Num off"
    using assms(2) by (simp add: startIndex_def)
  have "length fs < 2 ^ 32"
    using assms(4) fs(1) by simp
  then have "?n < 2 ^ 32"
    by (metis of_nat_less_iff of_nat_numeral of_nat_power)
  then have n: "?n < 2 ^ 53" "0 \<le> ?n"
    by simp_all
  have len: "int (length (terms r)) = max 0 (clampIndex ?n (endIndex q) - clampIndex ?n (Num off))"
    unfolding fs(2) start by (rule length_slice)
  from endIndex_cases [OF start assms(3)]
  consider
    (exact) "\<bar>off + lim\<bar> < 2 ^ 53" "endIndex q = Num (off + lim)"
  | (above) "2 ^ 53 \<le> off + lim" "endIndex q = PosInfinity"
  | (above') y where "2 ^ 53 \<le> off + lim" "endIndex q = Num y" "2 ^ 53 \<le> y"
  | (below) "off + lim \<le> - (2 ^ 53)" "endIndex q = NegInfinity"
  | (below') y where "off + lim \<le> - (2 ^ 53)" "endIndex q = Num y" "y \<le> - (2 ^ 53)"
    by blast
  then show ?thesis
  proof cases
    case exact
    have "hasMore r = (off + lim < ?n)"
      by (simp add: fs(3) exact(2) less_js_def)
    moreover have "int (length (terms r)) = min lim (max 0 (?n - off))"
      if "0 \<le> off" "0 \<le> lim"
      using that length_slice_nonneg [of off lim fs] by (simp add: fs(2) start exact(2))
    ultimately show ?thesis by (simp add: fs(1))
  next
    case above
    have "hasMore r = (off + lim < ?n)"
      using above(1) n by (simp add: fs(3) above(2) less_js_def)
    moreover have "int (length (terms r)) = min lim (max 0 (?n - off))"
      if "0 \<le> off" "0 \<le> lim"
      using that above(1) n unfolding len above(2) by (simp add: clampIndex_def)
    ultimately show ?thesis by (simp add: fs(1))
  next
    case above'
    have "hasMore r = (off + lim < ?n)"
      using above'(1,3) n by (simp add: fs(3) above'(2) less_js_def)
    moreover have "int (length (terms r)) = min lim (max 0 (?n - off))"
      if "0 \<le> off" "0 \<le> lim"
      using that above'(1,3) n unfolding len above'(2) by (simp add: clampIndex_def)
    ultimately show ?thesis by (simp add: fs(1))
  next
    case below
    have "hasMore r = (off + lim < ?n)"
      using below(1) n by (simp add: fs(3) below(2) less_js_def)
    moreover have "\<not> (0 \<le> off \<and> 0 \<le> lim)"
      using below(1) by auto
    ultimately show ?thesis unfolding fs(1) by blast
  next
    case below'
    have "hasMore r = (off + lim < ?n)"
      using below'(1,3) n by (simp add: fs(3) below'(2) less_js_def)
    moreover have "\<not> (0 \<le> off \<and> 0 \<le> lim)"
      using below'(1) by auto
    ultimately show ?thesis unfolding fs(1) by blast
  qed
qed

theorem pagination_witness:
  "terms_handler toLowerCaseAscii exampleCatalog (noParams\<lparr>limit := Some ''1'', offset := Some ''1''\<rparr>)
     = Inr \<lparr> terms = [a2], total_n = 3, hasMore = True, categories = [''catA'', ''catB''],
             difficulties = [''beginner'', ''intermediate'', ''advanced''] \<rparr> \<and>
   parseIntParam 0 (Some ''1'') = Num 1 \<and> parseIntParam 50 (Some ''1'') = Num 1 \<and>
   parseIntParam 0 None = Num 0 \<and> parseIntParam 50 None = Num 50 \<and>
   (3::nat) < 2 ^ 32 \<and>
   int (length [a2]) = min 1 (max 0 (int 3 - 1)) \<and> True = ((1::int) + 1 < int 3) \<and>
   terms_handler toLowerCaseAscii exampleCatalog
       (noParams\<lparr>category := Some ''catB'', limit := Some ''9007199254740993'',
                   offset := Some ''-9007199254740992''\<rparr>)
     = Inr \<lparr> terms = [], total_n = 1, hasMore = True, categories = [''catA'', ''catB''],
             difficulties = [''beginner'', ''intermediate'', ''advanced''] \<rparr> \<and>
   parseIntParam 0 (Some ''-9007199254740992'') = Num (- 9007199254740992) \<and>
   parseIntParam 50 (Some ''9007199254740993'') = Num 9007199254740992 \<and>
   True = ((- 9007199254740992 :: int) + 9007199254740992 < int 1)"
proof -
  let ?q = "noParams\<lparr>limit := Some ''1'', offset := Some ''1''\<rparr>"
  let ?r = "\<lparr> terms = [a2], total_n = 3, hasMore = True, categories = [''catA'', ''catB''],
             difficulties = [''beginner'', ''intermediate'', ''advanced''] \<rparr>"
  let ?q' = "noParams\<lparr>category := Some ''catB'', limit := Some ''9007199254740993'',
                       offset := Some ''-9007199254740992''\<rparr>"
  let ?r' = "\<lparr> terms = [], total_n = 1, hasMore = True, categories = [''catA'', ''catB''],
             difficulties = [''beginner'', ''intermediate'', ''advanced''] \<rparr>"
  have r: "terms_handler toLowerCaseAscii exampleCatalog ?q = Inr ?r"
    by code_simp
  have o: "parseIntParam 0 (offset ?q) = Num 1" by code_simp
  have l: "parseIntParam 50 (limit ?q) = Num 1" by code_simp
  have t: "total_n ?r < 2 ^ 32" by simp
  have d: "parseIntParam 0 None = Num 0" "parseIntParam 50 None = Num 50"
    by (simp_all add: parseIntParam_def)
  have r': "terms_handler toLowerCaseAscii exampleCatalog ?q' = Inr ?r'"
    by code_simp
  have o': "parseIntParam 0 (offset ?q') = Num (- 9007199254740992)" by code_simp
  have l': "parseIntParam 50 (limit ?q') = Num 9007199254740992" by code_simp
  have t': "total_n ?r' < 2 ^ 32" by simp
  from pagination [OF r o l t]
  have 1: "hasMore ?r = (1 + 1 < int (total_n ?r)) \<and>
        int (length (terms ?r)) = min 1 (max 0 (int (total_n ?r) - 1))"
    by simp
  from pagination [OF r' o' l' t']
  have 2: "hasMore ?r' = (- 9007199254740992 + 9007199254740992 < int (total_n ?r'))"
    by blast
  show ?thesis
    using r o l d r' o' l' 1 2 by simp
qed

text \<open>
  A negative offset counts from the end of the filtered sequence: with three terms,
  \<^verbatim>\<open>?offset=-1\<close> and the default limit give the slice from index 2 to index 3, one term,
  where the formula gives four.
\<close>

theorem pagination_negative_offset_counterexample:
  "terms_handler toLowerCaseAscii exampleCatalog (noParams\<lparr>offset := Some ''-1''\<rparr>)
     = Inr \<lparr> terms = [b1], total_n = 3, hasMore = False, categories = [''catA'', ''catB''],
             difficulties = [''beginner'', ''intermediate'', ''advanced''] \<rparr> \<and>
   parseIntParam 0 (Some ''-1'') = Num (- 1) \<and> parseIntParam 50 None = Num 50 \<and>
   int (length [b1]) \<noteq> min 50 (max 0 (int 3 - (- 1)))"
proof -
  have "terms_handler toLowerCaseAscii exampleCatalog (noParams\<lparr>offset := Some ''-1''\<rparr>)
     = Inr \<lparr> terms = [b1], total_n = 3, hasMore = False, categories = [''catA'', ''catB''],
             difficulties = [''beginner'', ''intermediate'', ''advanced''] \<rparr>"
    by code_simp
  moreover have "parseIntParam 0 (Some ''-1'') = Num (- 1)" by code_simp
  moreover have "parseIntParam 50 None = Num 50" by (simp add: parseIntParam_def)
  ultimately show ?thesis by simp
qed

section \<open>Related terms\<close>

text \<open>
  C4. For an id that occurs in \<open>allTerms\<close>, the handler finds the first term \<open>src\<close> with that
  id and answers. The related terms are the first five (or fewer) terms of \<open>allTerms\<close>, in
  the order of \<open>allTerms\<close>, whose id differs from the id of \<open>src\<close> and that share a tag with
  \<open>src\<close> or whose name contains one of the related names of \<open>src\<close>. When no other term
  with the id of \<open>src\<close> has that property (so whenever ids are unique), these are the
  terms distinct from \<open>src\<close> with that property. The result never contains \<open>src\<close>, nor its
  id, and never has more than five entries.
\<close>

theorem related_terms_resolver:
  assumes "i \<in> set (map id_t (allTerms db))"
  shows "\<exists>src r. find (\<lambda>t. id_t t = i) (allTerms db) = Some src \<and> id_t src = i \<and>
           term_handler db i = Inr r \<and>
           relatedTerms r = map project (findRelated db src) \<and>
           findRelated db src =
             take 5 (filter (\<lambda>t. id_t t \<noteq> id_t src \<and>
                 ((\<exists>tag \<in> set (tags t). tag \<in> set (tags src)) \<or>
                  (\<exists>related \<in> set (case relatedTerms src of None \<Rightarrow> [] | Some rs \<Rightarrow> rs).
                      sublist related (name t)))) (allTerms db)) \<and>
           ((\<forall>t \<in> set (allTerms db).
                 id_t t = i \<and>
                 ((\<exists>tag \<in> set (tags t). tag \<in> set (tags src)) \<or>
                  (\<exists>related \<in> set (case relatedTerms src of None \<Rightarrow> [] | Some rs \<Rightarrow> rs).
                      sublist related (name t))) \<longrightarrow> t = src) \<longrightarrow>
              findRelated db src =
                take 5 (filter (\<lambda>t. t \<noteq> src \<and>
                  ((\<exists>tag \<in> set (tags t). tag \<in> set (tags src)) \<or>
                   (\<exists>related \<in> set (case relatedTerms src of None \<Rightarrow> [] | Some rs \<Rightarrow> rs).
                       sublist related (name t)))) (allTerms db))) \<and>
           src \<notin> set (findRelated db src) \<and>
           id_t src \<notin> set (map id_r (relatedTerms r)) \<and>
           length (findRelated db src) \<le> 5 \<and> length (relatedTerms r) \<le> 5"
proof -
  obtain src where src: "find (\<lambda>t. id_t t = i) (allTerms db) = Some src" "id_t src = i"
      "src \<in> set (allTerms db)"
    using find_by_id [OF assms] by blast
  let ?rel = "\<lambda>t. (\<exists>tag \<in> set (tags t). tag \<in> set (tags src)) \<or>
                  (\<exists>related \<in> set (case relatedTerms src of None \<Rightarrow> [] | Some rs \<Rightarrow> rs).
                      sublist related (name t))"
  obtain r where r: "term_handler db i = Inr r"
      "relatedTerms r = map project (findRelated db src)"
    using src(1) by (simp add: term_handler_def)
  have code: "findRelated db src = take 5 (filter (\<lambda>t. id_t t \<noteq> id_t src \<and> ?rel t) (allTerms db))"
    unfolding findRelated_take using isRelated_iff [of src]
    by (simp cong: filter_cong)
  have uniq: "findRelated db src = take 5 (filter (\<lambda>t. t \<noteq> src \<and> ?rel t) (allTerms db))"
    if "\<forall>t \<in> set (allTerms db). id_t t = i \<and> ?rel t \<longrightarrow> t = src"
  proof -
    have "filter (\<lambda>t. id_t t \<noteq> id_t src \<and> ?rel t) (allTerms db)
          = filter (\<lambda>t. t \<noteq> src \<and> ?rel t) (allTerms db)"
      using that src(2) by (intro filter_cong) auto
    then show ?thesis using code by simp
  qed
  have ids: "\<forall>t \<in> set (findRelated db src). id_t t \<noteq> id_t src"
    unfolding code by (auto dest: in_set_takeD)
  then have notin: "src \<notin> set (findRelated db src)"
    by blast
  have notid: "id_t src \<notin> set (map id_r (relatedTerms r))"
    using ids by (auto simp: r(2) project_def)
  have len: "length (findRelated db src) \<le> 5" "length (relatedTerms r) \<le> 5"
    by (simp_all add: r(2) findRelated_take)
  show ?thesis
    using src(1,2) r code uniq notin notid len by blast
qed

theorem related_terms_resolver_witness:
  "''a1'' \<in> set (map id_t (allTerms exampleCatalog)) \<and>
   find (\<lambda>t. id_t t = ''a1'') (allTerms exampleCatalog) = Some a1 \<and>
   list_all (\<lambda>t. id_t t \<noteq> ''a1'' \<or> t = a1) (allTerms exampleCatalog) \<and>
   findRelated exampleCatalog a1 = [a2] \<and>
   take 5 (filter (\<lambda>t. t \<noteq> a1 \<and>
        ((\<exists>tag \<in> set (tags t). tag \<in> set (tags a1)) \<or>
         (\<exists>related \<in> set (case relatedTerms a1 of None \<Rightarrow> [] | Some rs \<Rightarrow> rs).
             sublist related (name t)))) (allTerms exampleCatalog)) = [a2]"
proof -
  have h: "''a1'' \<in> set (map id_t (allTerms exampleCatalog))" by code_simp
  have f: "find (\<lambda>t. id_t t = ''a1'') (allTerms exampleCatalog) = Some a1" by code_simp
  have u: "list_all (\<lambda>t. id_t t \<noteq> ''a1'' \<or> t = a1) (allTerms exampleCatalog)" by code_simp
  have e: "findRelated exampleCatalog a1 = [a2]" by code_simp
  from related_terms_resolver [OF h] f u
  have "findRelated exampleCatalog a1 =
          take 5 (filter (\<lambda>t. t \<noteq> a1 \<and>
            ((\<exists>tag \<in> set (tags t). tag \<in> set (tags a1)) \<or>
             (\<exists>related \<in> set (case relatedTerms a1 of None \<Rightarrow> [] | Some rs \<Rightarrow> rs).
                 sublist related (name t)))) (allTerms exampleCatalog))"
    by (auto simp: list_all_iff)
  then show ?thesis
    using h f u e by simp
qed

section \<open>Term detail\<close>

text \<open>
  C10. For an id that occurs in \<open>allTerms\<close>, the detail response carries every field of the
  term found unchanged, except \<open>relatedTerms\<close>: that field no longer holds the related names
  of the term but the projections \<open>{id, name, chinese}\<close> of the related terms that were
  matched.
\<close>

theorem term_detail_frame:
  assumes "i \<in> set (map id_t (allTerms db))"
  shows "\<exists>src r. find (\<lambda>t. id_t t = i) (allTerms db) = Some src \<and>
           term_handler db i = Inr r \<and>
           id_t r = id_t src \<and> name r = name src \<and> chinese r = chinese src \<and>
           description r = description src \<and> difficulty r = difficulty src \<and>
           tags r = tags src \<and> example r = example src \<and> useCases r = useCases src \<and>
           relatedTerms r =
             map (\<lambda>t. \<lparr> id_r = id_t t, name_r = name t, chinese_r = chinese t \<rparr>)
                 (findRelated db src)"
proof -
  obtain src where src: "find (\<lambda>t. id_t t = i) (allTerms db) = Some src"
    using find_by_id [OF assms] by blast
  then show ?thesis
    by (simp add: term_handler_def project_def)
qed

theorem term_detail_frame_witness:
  "''a1'' \<in> set (map id_t (allTerms exampleCatalog)) \<and>
   find (\<lambda>t. id_t t = ''a1'') (allTerms exampleCatalog) = Some a1 \<and>
   term_handler exampleCatalog ''a1'' =
     Inr \<lparr> id_t = ''a1'', name = ''closure'', chinese = ''bibao'',
           description = ''function with its environment'',
           difficulty = ''intermediate'', tags = [''scope''], example = ''f()'',
           useCases = [''modules''],
           relatedTerms = [\<lparr> id_r = ''a2'', name_r = ''hoisting'', chinese_r = ''tisheng'' \<rparr>] \<rparr>"
proof -
  have h: "''a1'' \<in> set (map id_t (allTerms exampleCatalog))" by code_simp
  have f: "find (\<lambda>t. id_t t = ''a1'') (allTerms exampleCatalog) = Some a1" by code_simp
  have r: "term_handler exampleCatalog ''a1'' =
     Inr \<lparr> id_t = ''a1'', name = ''closure'', chinese = ''bibao'',
           description = ''function with its environment'',
           difficulty = ''intermediate'', tags = [''scope''], example = ''f()'',
           useCases = [''modules''],
           relatedTerms = [\<lparr> id_r = ''a2'', name_r = ''hoisting'', chinese_r = ''tisheng'' \<rparr>] \<rparr>"
    by code_simp
  from term_detail_frame [OF h] f
  obtain r' where "term_handler exampleCatalog ''a1'' = Inr r'" "name r' = name a1"
    by auto
  then show ?thesis
    using h f r by simp
qed

section \<open>Random terms\<close>

text \<open>
  C5, amended. Let the sort return a permutation of \<open>allTerms\<close> and let the count parameter
  (default 1) parse to the integer \<open>n\<close>. For \<open>n = 0\<close> the result is empty; for \<open>n > 0\<close> it has
  \<open>min n totalTerms\<close> terms; for \<open>n \<ge> totalTerms\<close> it is the whole shuffled catalog; for
  \<open>n < 0\<close> it is the shuffled catalog without its last \<open>-n\<close> terms. It is always a prefix of
  the shuffled catalog, so no catalog entry is returned more often than it occurs, and
  when the ids of the catalog are distinct the ids of the result are distinct.
\<close>

theorem random_sampler:
  assumes "mset (sortRandom (allTerms db)) = mset (allTerms db)"
    and "parseIntParam 1 cnt = Num n"
  shows "(n = 0 \<longrightarrow> random_handler sortRandom db cnt = []) \<and>
         (0 < n \<longrightarrow> int (length (random_handler sortRandom db cnt))
                      = min n (int (length (allTerms db)))) \<and>
         (int (length (allTerms db)) \<le> n \<longrightarrow>
            random_handler sortRandom db cnt = sortRandom (allTerms db)) \<and>
         (n < 0 \<longrightarrow> random_handler sortRandom db cnt
                      = take (length (allTerms db) - nat (- n)) (sortRandom (allTerms db))) \<and>
         prefix (random_handler sortRandom db cnt) (sortRandom (allTerms db)) \<and>
         mset (random_handler sortRandom db cnt) \<subseteq># mset (allTerms db) \<and>
         (distinct (map id_t (allTerms db)) \<longrightarrow>
            distinct (map id_t (random_handler sortRandom db cnt)))"
proof -
  let ?sh = "sortRandom (allTerms db)"
  let ?res = "random_handler sortRandom db cnt"
  have res: "?res = slice ?sh (Num 0) (Num n)"
    using assms(2) by (simp add: random_handler_def)
  have len: "length ?sh = length (allTerms db)"
    using assms(1) by (rule mset_eq_length)
  have nonneg: "?res = take (nat n) ?sh" if "0 \<le> n"
    using that by (simp add: res slice_from_zero)
  have zero: "?res = []" if "n = 0"
    using that nonneg by simp
  have pos: "int (length ?res) = min n (int (length (allTerms db)))" if "0 < n"
    using that nonneg len by simp
  have all: "?res = ?sh" if "int (length (allTerms db)) \<le> n"
    using that nonneg len by simp
  have neg: "?res = take (length (allTerms db) - nat (- n)) ?sh" if "n < 0"
    using that by (simp add: res slice_negative_end len)
  obtain k where k: "?res = take k ?sh"
    unfolding res using slice_zero_take by blast
  have pre: "prefix ?res ?sh"
    unfolding k by (rule take_is_prefix)
  have sub: "mset ?res \<subseteq># mset (allTerms db)"
    unfolding k using mset_take_subset [of k ?sh] assms(1) by simp
  have dis: "distinct (map id_t ?res)" if "distinct (map id_t (allTerms db))"
  proof -
    have "mset (map id_t ?sh) = mset (map id_t (allTerms db))"
      using assms(1) by simp
    then have "distinct (map id_t ?sh)"
      using that mset_eq_imp_distinct_iff by blast
    then show ?thesis
      unfolding k by (rule distinct_map_take)
  qed
  show ?thesis
    using zero pos all neg pre sub dis by blast
qed

theorem random_sampler_witness:
  "mset (rev (allTerms exampleCatalog)) = mset (allTerms exampleCatalog) \<and>
   parseIntParam 1 (Some ''2'') = Num 2 \<and> (0::int) < 2 \<and>
   distinct (map id_t (allTerms exampleCatalog)) \<and>
   random_handler rev exampleCatalog (Some ''2'') = [b1, a2] \<and>
   int (length (random_handler rev exampleCatalog (Some ''2'')))
     = min 2 (int (length (allTerms exampleCatalog))) \<and>
   distinct (map id_t (random_handler rev exampleCatalog (Some ''2'')))"
proof -
  have p: "mset (rev (allTerms exampleCatalog)) = mset (allTerms exampleCatalog)" by simp
  have n: "parseIntParam 1 (Some ''2'') = Num 2" by code_simp
  have d: "distinct (map id_t (allTerms exampleCatalog))" by code_simp
  have e: "random_handler rev exampleCatalog (Some ''2'') = [b1, a2]" by code_simp
  from random_sampler [of rev exampleCatalog "Some ''2''" 2, OF p n] d
  have "int (length (random_handler rev exampleCatalog (Some ''2'')))
          = min 2 (int (length (allTerms exampleCatalog))) \<and>
        distinct (map id_t (random_handler rev exampleCatalog (Some ''2'')))"
    by simp
  then show ?thesis
    using p n d e by simp
qed

text \<open>
  \<^verbatim>\<open>?count=-1\<close> is \<^verbatim>\<open>shuffled.slice(0, -1)\<close>: all terms but the last one, not the empty
  result (here for the sort that leaves the order as it is).
\<close>

theorem random_negative_count_counterexample:
  "parseIntParam 1 (Some ''-1'') = Num (- 1) \<and>
   mset (id (allTerms exampleCatalog)) = mset (allTerms exampleCatalog) \<and>
   random_handler id exampleCatalog (Some ''-1'') = [a1, a2] \<and> [a1, a2] \<noteq> []"
proof -
  have "parseIntParam 1 (Some ''-1'') = Num (- 1)" by code_simp
  moreover have "random_handler id exampleCatalog (Some ''-1'') = [a1, a2]" by code_simp
  ultimately show ?thesis by simp
qed

section \<open>Statistics\<close>

text \<open>
  C8. The three difficulty counts of \<^verbatim>\<open>/api/stats\<close> add up to the number of terms whose
  difficulty is one of \<^verbatim>\<open>beginner\<close>, \<^verbatim>\<open>intermediate\<close>, \<^verbatim>\<open>advanced\<close>: a term with any other
  difficulty is in no bucket and no term is counted twice. So the sum is at most
  \<open>totalTerms\<close>, and equal to it exactly when every term has a recognized difficulty.
\<close>

theorem stats_difficulty_sum:
  fixes db :: catalog and now :: string
  defines "d \<equiv> byDifficulty (stats_handler db now)"
  defines "recognized \<equiv> (\<lambda>t :: entry. difficulty t = ''beginner'' \<or> difficulty t = ''intermediate''
                                \<or> difficulty t = ''advanced'')"
  shows "beginner d + intermediate d + advanced d = length (filter recognized (allTerms db)) \<and>
         beginner d + intermediate d + advanced d \<le> totalTerms (stats_handler db now) \<and>
         (beginner d + intermediate d + advanced d = totalTerms (stats_handler db now)
            \<longleftrightarrow> (\<forall>t \<in> set (allTerms db). recognized t))"
proof -
  have sum: "beginner d + intermediate d + advanced d = length (filter recognized (allTerms db))"
    unfolding d_def recognized_def stats_handler_def
    by (simp, rule filter3_length) auto
  have total: "totalTerms (stats_handler db now) = length (allTerms db)"
    by (simp add: stats_handler_def)
  show ?thesis
    unfolding sum total by (simp add: length_filter_eq_iff)
qed

theorem stats_difficulty_sum_witness:
  "list_all (\<lambda>t. difficulty t = ''beginner'' \<or> difficulty t = ''intermediate''
                   \<or> difficulty t = ''advanced'') (allTerms exampleCatalog) \<and>
   totalTerms (stats_handler exampleCatalog ''2024-01-01T00:00:00.000Z'') = 3 \<and>
   beginner (byDifficulty (stats_handler exampleCatalog ''2024-01-01T00:00:00.000Z''))
     + intermediate (byDifficulty (stats_handler exampleCatalog ''2024-01-01T00:00:00.000Z''))
     + advanced (byDifficulty (stats_handler exampleCatalog ''2024-01-01T00:00:00.000Z'')) = 3"
  using stats_difficulty_sum [of exampleCatalog "''2024-01-01T00:00:00.000Z''"]
  by (simp add: exampleCatalog_def allTerms_def a1_def a2_def b1_def stats_handler_def)

end
